theory Spec2Isabelle
  imports Main "HOL-Library.Word"
begin

section \<open>The disposable FIFO queue (package queue) and the selectable future (package futures)\<close>

text \<open>
  The queue of package \<open>queue\<close> and the future of package \<open>futures\<close> are embedded as
  functions on explicit states. One call of a method is one function application: the
  function takes the state in which the call starts and gives an \<open>outcome\<close>, which is
  \<^item> \<open>Returns s r\<close>: the call returns \<open>r\<close> and leaves the state \<open>s\<close>;
  \<^item> \<open>Blocks s\<close>: the calling goroutine is suspended in state \<open>s\<close> at a blocking
    operation, and stays so unless another goroutine acts;
  \<^item> \<open>Panics s\<close>: a run-time panic in state \<open>s\<close>.

  Go's pairs \<open>(value, error)\<close> are pairs whose second component is an \<open>error option\<close>,
  \<open>None\<close> for \<open>nil\<close>. A slice is a list; the \<open>nil\<close> slice and the empty slice are both
  \<open>[]\<close>. The element type \<open>T\<close> is a type of class \<open>zero\<close>, whose 0 is the zero value of \<open>T\<close>.
  Allocation is taken to succeed. A \<open>sync.Mutex\<close> is a flag, true while the mutex is
  held; \<open>Lock\<close> on a held mutex suspends the caller.
\<close>

subsection \<open>Errors, outcomes, wake tokens\<close>

text \<open>
  Modelled from the spec: the error values \<open>ErrDisposed\<close>, \<open>ErrTimeout\<close> and
  \<open>ErrEmptyQueue\<close> are declared in a file of package \<open>queue\<close> that is not among the
  sources; section 7 of the specification names exactly these three kinds and
  requires them to be distinguishable.
\<close>

datatype error = ErrDisposed | ErrTimeout | ErrEmptyQueue

datatype ('s, 'r) outcome = Returns 's 'r | Blocks 's | Panics 's

text \<open>The state a call leaves behind, however it ended.\<close>

fun state_of :: "('s, 'r) outcome \<Rightarrow> 's" where
  "state_of (Returns s r) = s"
| "state_of (Blocks s) = s"
| "state_of (Panics s) = s"

text \<open>
  \<open>type sema struct { ready chan bool; response *sync.WaitGroup }\<close>. The channel
  \<open>ready\<close> has capacity 1: it is the list of the values buffered in it. The wait group
  is its counter.
\<close>

record sema =
  ready :: "bool list"
  response :: nat

definition newSema :: sema where
  "newSema = \<lparr>ready = [], response = 0\<rparr>"

text \<open>\<open>sema.response.Add(1)\<close>.\<close>

definition response_Add1 :: "sema \<Rightarrow> sema" where
  "response_Add1 s = s\<lparr>response := response s + 1\<rparr>"

text \<open>
  \<open>sema.response.Done()\<close>: a wait group panics when its counter would become negative,
  which is the result \<open>None\<close>.
\<close>

definition response_Done :: "sema \<Rightarrow> sema option" where
  "response_Done s = (if response s = 0 then None else Some (s\<lparr>response := response s - 1\<rparr>))"

text \<open>
  \<open>select { case sema.ready <- true: ... default: ... }\<close>: the send succeeds exactly when
  the buffer of the capacity-1 channel has room. The result says whether it did.
\<close>

definition try_send :: "sema \<Rightarrow> bool \<times> sema" where
  "try_send s = (if length (ready s) < 1 then (True, s\<lparr>ready := ready s @ [True]\<rparr>)
                 else (False, s))"

subsection \<open>The waiter registry\<close>

text \<open>
  \<open>type waiters []*sema\<close>: a pointer is the index of the token in the memory \<open>semas\<close> of
  the state below. \<open>get\<close> gives the first pointer (\<open>None\<close> for \<open>nil\<close>) and the registry
  without it; \<open>remove\<close> keeps every pointer but the given one.
\<close>

definition waiters_get :: "nat list \<Rightarrow> nat option \<times> nat list" where
  "waiters_get w = (if length w = 0 then (None, w) else (Some (w ! 0), tl w))"

definition waiters_put :: "nat list \<Rightarrow> nat \<Rightarrow> nat list" where
  "waiters_put w s = w @ [s]"

definition waiters_remove :: "nat list \<Rightarrow> nat \<Rightarrow> nat list" where
  "waiters_remove w s = (if length w = 0 then w else filter (\<lambda>x. x \<noteq> s) w)"

subsection \<open>The item buffer\<close>

text \<open>
  \<open>items.get(number)\<close>. The loop runs \<open>i\<close> from 0 while \<open>i < number\<close>, leaves when \<open>i\<close> has
  reached the length of the slice, appends the item at \<open>i\<close> to \<open>returnItems\<close>, overwrites
  the cell with the zero value of \<open>T\<close> and counts \<open>index\<close>. The counters start at 0 and
  only grow, so they are natural numbers; \<open>number\<close> is the \<open>int64\<close> argument. The
  \<open>make([]T, 0, number)\<close> before the loop only reserves memory, whatever the number.
\<close>

function get_loop :: "'a::zero list \<Rightarrow> int \<Rightarrow> nat \<Rightarrow> 'a list \<Rightarrow> nat \<Rightarrow> 'a list \<times> 'a list \<times> nat" where
  "get_loop its number i returnItems index =
     (if int i < number then
        if i \<ge> length its then (its, returnItems, index)
        else get_loop (its[i := 0]) number (i + 1) (returnItems @ [its ! i]) (index + 1)
      else (its, returnItems, index))"
  by pat_completeness auto
termination
  by (relation "measure (\<lambda>(its, number, i, returnItems, index). length its - i)") auto

declare get_loop.simps [simp del]

text \<open>
  The result is \<open>returnItems\<close> and the new value of the slice, which is the old one
  from \<open>index\<close> on.
\<close>

definition items_get :: "'a::zero list \<Rightarrow> int \<Rightarrow> 'a list \<times> 'a list" where
  "items_get its number =
     (case get_loop its number 0 [] 0 of
        (its', returnItems, index) \<Rightarrow> (returnItems, drop index its'))"

definition items_peek :: "'a::zero list \<Rightarrow> 'a \<times> bool" where
  "items_peek its = (if length its = 0 then (0, False) else (its ! 0, True))"

text \<open>
  \<open>items.getUntil(checker)\<close>. \<open>index\<close> starts at -1 and is set to \<open>i\<close> for every item
  taken; the new value of the slice is the old one from \<open>index+1\<close> on. The \<open>range\<close>
  loop reads the item at \<open>i\<close> before the cell is overwritten.
\<close>

function getUntil_loop ::
  "('a::zero \<Rightarrow> bool) \<Rightarrow> 'a list \<Rightarrow> nat \<Rightarrow> 'a list \<Rightarrow> int \<Rightarrow> 'a list \<times> 'a list \<times> int" where
  "getUntil_loop checker its i returnItems index =
     (if i < length its then
        if \<not> checker (its ! i) then (its, returnItems, index)
        else getUntil_loop checker (its[i := 0]) (i + 1) (returnItems @ [its ! i]) (int i)
      else (its, returnItems, index))"
  by pat_completeness auto
termination
  by (relation "measure (\<lambda>(checker, its, i, returnItems, index). length its - i)") auto

declare getUntil_loop.simps [simp del]

definition items_getUntil :: "'a::zero list \<Rightarrow> ('a \<Rightarrow> bool) \<Rightarrow> 'a list \<times> 'a list" where
  "items_getUntil its checker =
     (if length its = 0 then ([], its)
      else case getUntil_loop checker its 0 [] (- 1) of
             (its', returnItems, index) \<Rightarrow> (returnItems, drop (nat (index + 1)) its'))"

subsection \<open>The queue\<close>

text \<open>
  \<open>type Queue[T any] struct { waiters; items; lock sync.Mutex; disposed bool }\<close>.
  \<open>lock\<close> is true while the mutex is held. \<open>semas\<close> is the memory the pointers of
  \<open>waiters\<close> point into; \<open>newSema()\<close> allocates the next cell.
\<close>

record 'a Queue =
  waiters :: "nat list"
  items :: "'a list"
  lock :: bool
  disposed :: bool
  semas :: "sema list"

text \<open>
  \<open>New(hint)\<close>: \<open>make([]T, 0, hint)\<close> panics for a negative capacity, which is the result
  \<open>None\<close>.
\<close>

definition New :: "int \<Rightarrow> 'a Queue option" where
  "New hint = (if hint < 0 then None
               else Some \<lparr>waiters = [], items = [], lock = False, disposed = False, semas = []\<rparr>)"

text \<open>
  The hand-off loop of \<open>Put\<close> (the \<open>for\<close> of lines 186 to 201), run by the goroutine that
  holds the lock. After a successful send the producer calls \<open>sema.response.Wait()\<close>,
  which returns at once when the counter is 0 and otherwise suspends the producer until
  the consumer calls \<open>Done\<close>.
\<close>

function put_loop :: "'a Queue \<Rightarrow> ('a Queue, unit) outcome" where
  "put_loop q =
     (case waiters_get (waiters q) of
        (None, w) \<Rightarrow> Returns (q\<lparr>waiters := w\<rparr>) ()
      | (Some p, w) \<Rightarrow>
          (let q1 = q\<lparr>waiters := w\<rparr>;
               s1 = response_Add1 (semas q1 ! p)
           in case try_send s1 of
                (True, s2) \<Rightarrow>
                  (let q2 = q1\<lparr>semas := (semas q1)[p := s2]\<rparr>
                   in if response s2 = 0
                      then (if length (items q2) = 0 then Returns q2 () else put_loop q2)
                      else Blocks q2)
              | (False, s2) \<Rightarrow>
                  (let q2 = q1\<lparr>semas := (semas q1)[p := s2]\<rparr>
                   in if length (items q2) = 0 then Returns q2 () else put_loop q2)))"
  by pat_completeness auto
termination
  by (relation "measure (\<lambda>q. length (waiters q))")
     (auto simp: waiters_get_def split: if_splits)

declare put_loop.simps [simp del]

definition Put :: "'a Queue \<Rightarrow> 'a list \<Rightarrow> ('a Queue, error option) outcome" where
  "Put q its =
     (if length its = 0 then Returns q None
      else if lock q then Blocks q
      else let q1 = q\<lparr>lock := True\<rparr>
           in if disposed q1 then Returns (q1\<lparr>lock := False\<rparr>) (Some ErrDisposed)
              else case put_loop (q1\<lparr>items := items q1 @ its\<rparr>) of
                     Blocks q2 \<Rightarrow> Blocks q2
                   | Panics q2 \<Rightarrow> Panics q2
                   | Returns q2 u \<Rightarrow> Returns (q2\<lparr>lock := False\<rparr>) None)"

text \<open>
  \<open>Poll(number, timeout)\<close>. On an empty buffer the caller registers a fresh token,
  releases the lock and waits in the \<open>select\<close> of line 244. With no other goroutine
  running nothing is ever sent on \<open>sema.ready\<close>: with \<open>timeout > 0\<close> the timer fires, the
  send of line 256 is tried (on the fresh token it succeeds, the token is removed under
  the lock and \<open>ErrTimeout\<close> is returned); with \<open>timeout <= 0\<close> the channel \<open>timeoutC\<close> is \<open>nil\<close> and
  the caller stays suspended. The branches of this \<open>select\<close> that another goroutine
  enables are the subject of the step relation further down.
\<close>

definition Poll :: "'a::zero Queue \<Rightarrow> int \<Rightarrow> int \<Rightarrow> ('a Queue, 'a list \<times> error option) outcome" where
  "Poll q number timeout =
     (if number < 1 then Returns q ([], None)
      else if lock q then Blocks q
      else let q1 = q\<lparr>lock := True\<rparr>
           in if disposed q1 then Returns (q1\<lparr>lock := False\<rparr>) ([], Some ErrDisposed)
              else if length (items q1) = 0 then
                (let p = length (semas q1);
                     q2 = q1\<lparr>semas := semas q1 @ [newSema]\<rparr>;
                     q3 = q2\<lparr>waiters := waiters_put (waiters q2) p\<rparr>;
                     q4 = q3\<lparr>lock := False\<rparr>
                 in if timeout > 0 then
                      (case try_send (semas q4 ! p) of
                         (True, s) \<Rightarrow>
                           (let q5 = q4\<lparr>semas := (semas q4)[p := s]\<rparr>;
                                q6 = q5\<lparr>lock := True\<rparr>;
                                q7 = q6\<lparr>waiters := waiters_remove (waiters q6) p\<rparr>
                            in Returns (q7\<lparr>lock := False\<rparr>) ([], Some ErrTimeout))
                       | (False, s) \<Rightarrow>
                           (case response_Done s of
                              None \<Rightarrow> Panics q4
                            | Some s' \<Rightarrow>
                                Returns (q4\<lparr>semas := (semas q4)[p := s']\<rparr>) ([], Some ErrTimeout)))
                    else Blocks q4)
              else case items_get (items q1) number of
                     (its, rest) \<Rightarrow> Returns (q1\<lparr>items := rest, lock := False\<rparr>) (its, None))"

definition Get :: "'a::zero Queue \<Rightarrow> int \<Rightarrow> ('a Queue, 'a list \<times> error option) outcome" where
  "Get q number = Poll q number 0"

definition Peek :: "'a::zero Queue \<Rightarrow> ('a Queue, 'a \<times> error option) outcome" where
  "Peek q =
     (if lock q then Blocks q
      else let q1 = q\<lparr>lock := True\<rparr>
           in if disposed q1 then Returns (q1\<lparr>lock := False\<rparr>) (0, Some ErrDisposed)
              else case items_peek (items q1) of
                     (peekItem, ok) \<Rightarrow>
                       if \<not> ok then Returns (q1\<lparr>lock := False\<rparr>) (0, Some ErrEmptyQueue)
                       else Returns (q1\<lparr>lock := False\<rparr>) (peekItem, None))"

text \<open>\<open>TakeUntil(checker)\<close>; the argument is \<open>None\<close> for a \<open>nil\<close> function.\<close>

definition TakeUntil ::
  "'a::zero Queue \<Rightarrow> ('a \<Rightarrow> bool) option \<Rightarrow> ('a Queue, 'a list \<times> error option) outcome" where
  "TakeUntil q checker =
     (case checker of
        None \<Rightarrow> Returns q ([], None)
      | Some c \<Rightarrow>
          if lock q then Blocks q
          else let q1 = q\<lparr>lock := True\<rparr>
               in if disposed q1 then Returns (q1\<lparr>lock := False\<rparr>) ([], Some ErrDisposed)
                  else case items_getUntil (items q1) c of
                         (result, rest) \<Rightarrow> Returns (q1\<lparr>items := rest, lock := False\<rparr>) (result, None))"

definition Empty :: "'a Queue \<Rightarrow> ('a Queue, bool) outcome" where
  "Empty q = (if lock q then Blocks q else Returns q (length (items q) = 0))"

definition Len :: "'a Queue \<Rightarrow> ('a Queue, int) outcome" where
  "Len q = (if lock q then Blocks q else Returns q (int (length (items q))))"

definition Disposed :: "'a Queue \<Rightarrow> ('a Queue, bool) outcome" where
  "Disposed q = (if lock q then Blocks q else Returns q (disposed q))"

text \<open>
  \<open>Dispose()\<close>. The loop adds 1 to the counter of every registered token and tries the
  non-blocking send on its channel.
\<close>

definition dispose_signal :: "nat \<Rightarrow> sema list \<Rightarrow> sema list" where
  "dispose_signal p h = h[p := snd (try_send (response_Add1 (h ! p)))]"

definition Dispose :: "'a Queue \<Rightarrow> ('a Queue, 'a list) outcome" where
  "Dispose q =
     (if lock q then Blocks q
      else let q1 = q\<lparr>lock := True\<rparr>;
               q2 = q1\<lparr>disposed := True\<rparr>;
               q3 = q2\<lparr>semas := fold dispose_signal (waiters q2) (semas q2)\<rparr>;
               disposedItems = items q3;
               q4 = q3\<lparr>items := [], waiters := []\<rparr>
           in Returns (q4\<lparr>lock := False\<rparr>) disposedItems)"

subsection \<open>The parallel dispatch helper\<close>

text \<open>
  The workers of \<open>ExecuteInParallel\<close> share the cursor \<open>done\<close>, which starts at -1, and
  each claims the next index with \<open>atomic.AddInt64(&done, 1)\<close>. The increments are atomic,
  so they happen one after the other; \<open>parallel_workers\<close> follows them in that order.
  \<open>live\<close> counts the workers that have not yet left their loop: a worker that draws an
  index of at least \<open>todo\<close> calls \<open>wg.Done()\<close> and leaves, any other calls
  \<open>fn(items[index])\<close> and stores 0 in the cell. \<open>calls\<close> records the arguments \<open>fn\<close> was
  called with, in the order of the claims; \<open>fn\<close> itself is any function that is not
  \<open>nil\<close> and does not use the queue.
\<close>

function parallel_workers ::
  "'a::zero list \<Rightarrow> nat \<Rightarrow> int \<Rightarrow> nat \<Rightarrow> 'a list \<Rightarrow> 'a list \<times> 'a list" where
  "parallel_workers its todo done live calls =
     (if live = 0 then (its, calls)
      else let index = done + 1
           in if index \<ge> int todo then parallel_workers its todo index (live - 1) calls
              else parallel_workers (its[nat index := 0]) todo index live
                     (calls @ [its ! nat index]))"
  by pat_completeness auto
termination
  by (relation "measure (\<lambda>(its, todo, done, live, calls). nat (int todo - done) + live)") auto

declare parallel_workers.simps [simp del]

text \<open>
  \<open>ExecuteInParallel(q, fn)\<close>; \<open>q\<close> is \<open>None\<close> for the \<open>nil\<close> pointer and \<open>NumCPU\<close> is what
  \<open>runtime.NumCPU()\<close> gives. The result is the record of the calls of \<open>fn\<close>. The
  \<open>return\<close> of line 387 leaves the function between \<open>q.lock.Lock()\<close> and
  \<open>q.lock.Unlock()\<close>.
\<close>

definition ExecuteInParallel ::
  "nat \<Rightarrow> 'a::zero Queue option \<Rightarrow> ('a Queue option, 'a list) outcome" where
  "ExecuteInParallel NumCPU q =
     (case q of
        None \<Rightarrow> Returns None []
      | Some q0 \<Rightarrow>
          if lock q0 then Blocks (Some q0)
          else let q1 = q0\<lparr>lock := True\<rparr>;
                   todo = length (items q1)
               in if todo = 0 then Returns (Some q1) []
                  else let numCPU = (if NumCPU > 1 then NumCPU - 1 else 1)
                       in case parallel_workers (items q1) todo (- 1) numCPU [] of
                            (its, calls) \<Rightarrow>
                              (case Dispose (q1\<lparr>items := its, lock := False\<rparr>) of
                                 Returns q2 r \<Rightarrow> Returns (Some q2) calls
                               | Blocks q2 \<Rightarrow> Blocks (Some q2)
                               | Panics q2 \<Rightarrow> Panics (Some q2)))"

subsection \<open>The selectable future\<close>

text \<open>
  \<open>type Selectable[T any] struct { m sync.Mutex; val T; err error; wait chan struct{};
  filled uint32 }\<close>. The field \<open>m\<close> is \<open>mutex\<close>, true while held. An \<open>error\<close> is any
  value of a type \<open>'e\<close>, \<open>None\<close> for \<open>nil\<close>. A channel is a cell of the memory \<open>chans\<close>,
  which holds for each channel whether it has been closed; cell 0 is the package
  variable \<open>closed\<close>, closed by \<open>init\<close>. \<open>wait\<close> is \<open>None\<close> for the \<open>nil\<close> channel.
\<close>

record ('a, 'e) Selectable =
  mutex :: bool
  val :: 'a
  err :: "'e option"
  wait :: "nat option"
  filled :: "32 word"
  chans :: "bool list"

definition closed :: nat where
  "closed = 0"

definition NewSelectable :: "('a::zero, 'e) Selectable" where
  "NewSelectable = \<lparr>mutex = False, val = 0, err = None, wait = None, filled = 0, chans = [True]\<rparr>"

definition wchan :: "('a, 'e) Selectable \<Rightarrow> (('a, 'e) Selectable, nat option) outcome" where
  "wchan f =
     (if mutex f then Blocks f
      else let f1 = f\<lparr>mutex := True\<rparr>;
               f2 = (if wait f1 = None
                     then f1\<lparr>chans := chans f1 @ [False], wait := Some (length (chans f1))\<rparr>
                     else f1);
               ch = wait f2
           in Returns (f2\<lparr>mutex := False\<rparr>) ch)"

definition WaitChan :: "('a, 'e) Selectable \<Rightarrow> (('a, 'e) Selectable, nat option) outcome" where
  "WaitChan f = (if filled f = 1 then Returns f (Some closed) else wchan f)"

text \<open>
  \<open>GetResult()\<close>: the receive \<open><-f.wchan()\<close> goes on when the channel is closed and
  suspends the caller while it is open (nothing is ever sent on it) or \<open>nil\<close>.
\<close>

definition GetResult ::
  "('a, 'e) Selectable \<Rightarrow> (('a, 'e) Selectable, 'a \<times> 'e option) outcome" where
  "GetResult f =
     (if filled f = 0 then
        (case wchan f of
           Returns f1 ch \<Rightarrow>
             (case ch of
                None \<Rightarrow> Blocks f1
              | Some c \<Rightarrow> if chans f1 ! c then Returns f1 (val f1, err f1) else Blocks f1)
         | Blocks f1 \<Rightarrow> Blocks f1
         | Panics f1 \<Rightarrow> Panics f1)
      else Returns f (val f, err f))"

text \<open>
  \<open>Fill(v, e)\<close>. \<open>close(w)\<close> panics on a channel that is closed already; the panic
  leaves the mutex held.
\<close>

definition Fill ::
  "('a, 'e) Selectable \<Rightarrow> 'a \<Rightarrow> 'e option \<Rightarrow> (('a, 'e) Selectable, 'e option) outcome" where
  "Fill f v e =
     (if mutex f then Blocks f
      else let f1 = f\<lparr>mutex := True\<rparr>
           in if filled f1 = 0 then
                (let f2 = f1\<lparr>val := v, err := e, filled := 1\<rparr>;
                     w = wait f2;
                     f3 = f2\<lparr>wait := Some closed\<rparr>
                 in case w of
                      None \<Rightarrow> Returns (f3\<lparr>mutex := False\<rparr>) (err f3)
                    | Some c \<Rightarrow>
                        if chans f3 ! c then Panics f3
                        else let f4 = f3\<lparr>chans := (chans f3)[c := True]\<rparr>
                             in Returns (f4\<lparr>mutex := False\<rparr>) (err f4))
              else Returns (f1\<lparr>mutex := False\<rparr>) (err f1))"

definition SetValue ::
  "('a, 'e) Selectable \<Rightarrow> 'a \<Rightarrow> (('a, 'e) Selectable, 'e option) outcome" where
  "SetValue f v = Fill f v None"

definition SetError ::
  "('a::zero, 'e) Selectable \<Rightarrow> 'e option \<Rightarrow> (('a, 'e) Selectable, unit) outcome" where
  "SetError f e =
     (case Fill f 0 e of
        Returns f1 r \<Rightarrow> Returns f1 ()
      | Blocks f1 \<Rightarrow> Blocks f1
      | Panics f1 \<Rightarrow> Panics f1)"

text \<open>
  An unfilled future as \<open>NewSelectable\<close>, \<open>wchan\<close> and a suspended \<open>GetResult\<close> leave it:
  \<open>filled\<close> is 0, the mutex is free, and \<open>wait\<close> is \<open>nil\<close> or a channel that is still open.
\<close>

definition unfilled :: "('a, 'e) Selectable \<Rightarrow> bool" where
  "unfilled f = (filled f = 0 \<and> \<not> mutex f \<and>
     (case wait f of None \<Rightarrow> True | Some c \<Rightarrow> c < length (chans f) \<and> \<not> chans f ! c))"

subsection \<open>Sequences of calls\<close>


subsection \<open>One Poll and one Put, step by step\<close>

text \<open>
  A timeout that races with a hand-off takes two goroutines that run at the same
  time. They are embedded as a step relation: a configuration holds the
  shared queue and, for each goroutine, the place it has reached; a step is one
  operation on the shared state by one goroutine, and a run interleaves the steps of
  the two in any order.

  The consumer is a call \<open>Poll(number, timeout)\<close> that found the buffer empty, has
  registered its token and released the lock. Its places: waiting in the \<open>select\<close> of
  line 244; after the receive from \<open>sema.ready\<close>, before the test of \<open>q.disposed\<close> (line
  247); before \<open>q.items.get(number)\<close> (line 250); before \<open>sema.response.Done()\<close> (line 251)
  with the items it took; after the timer fired, before the inner \<open>select\<close> (line 255);
  before \<open>q.lock.Lock()\<close>, \<open>q.waiters.remove(sema)\<close> and \<open>q.lock.Unlock()\<close> (lines 259 to
  261); before the \<open>sema.response.Done()\<close> of line 264; returned with its results; and
  stopped by a panic of \<open>Done\<close>.
\<close>

datatype 'a poll_pc =
    Poll_select
  | Poll_woken
  | Poll_get
  | Poll_Done "'a list"
  | Poll_timeout
  | Poll_Lock
  | Poll_remove
  | Poll_Unlock
  | Poll_late_Done
  | Poll_returned "'a list" "error option"
  | Poll_panicked

text \<open>
  The producer is a call \<open>Put(items...)\<close>. Its places: at the test of line 174; before
  \<open>q.lock.Lock()\<close> (line 178); at the test of \<open>q.disposed\<close> (line 180); before the \<open>append\<close>
  (line 185); before \<open>q.waiters.get()\<close> (line 187); before \<open>sema.response.Add(1)\<close>, the
  \<open>select\<close> with the send, and \<open>sema.response.Wait()\<close> (lines 191 to 194), each with the
  token in its variable \<open>sema\<close>; at the test of line 198; before \<open>q.lock.Unlock()\<close> (line
  203); and returned with its error.
\<close>

datatype put_pc =
    Put_start
  | Put_Lock
  | Put_check
  | Put_append
  | Put_get
  | Put_Add nat
  | Put_send nat
  | Put_Wait nat
  | Put_len
  | Put_Unlock
  | Put_returned "error option"

text \<open>
  A configuration: the shared queue, the local variable \<open>sema\<close> and the arguments of the
  consumer and its place, the argument of the producer and its place. \<open>poll_sent\<close> and
  \<open>put_sent\<close> are history variables: they record that the send of line 256, or that of
  line 193, has succeeded. No step reads them.
\<close>

record 'a race =
  shared :: "'a Queue"
  poll_sema :: nat
  poll_number :: int
  poll_timeout :: int
  poll_at :: "'a poll_pc"
  put_items :: "'a list"
  put_at :: put_pc
  poll_sent :: bool
  put_sent :: bool






text \<open>
  The configuration in which the race starts: \<open>Poll\<close> has run lines 236 to 238 on the
  queue \<open>q\<close> (a fresh token is registered and the lock is free again), and \<open>Put\<close> is about
  to start.
\<close>

definition race_start :: "'a Queue \<Rightarrow> int \<Rightarrow> int \<Rightarrow> 'a list \<Rightarrow> 'a race" where
  "race_start q number timeout its =
     \<lparr>shared = q\<lparr>semas := semas q @ [newSema],
                  waiters := waiters_put (waiters q) (length (semas q))\<rparr>,
      poll_sema = length (semas q), poll_number = number, poll_timeout = timeout,
      poll_at = Poll_select, put_items = its, put_at = Put_start,
      poll_sent = False, put_sent = False\<rparr>"
























section \<open>Properties\<close>

subsection \<open>The loops of the item buffer\<close>





text \<open>The same three facts for the loop of \<open>getUntil\<close>.\<close>

lemma getUntil_loop_ret:
  "fst (snd (getUntil_loop c its i ret idx)) = ret @ takeWhile c (drop i its)"
proof (induction c its i ret idx rule: getUntil_loop.induct)
  case (1 c its i ret idx)
  show ?case
  proof (cases "i < length its \<and> c (its ! i)")
    case True
    from True have d: "drop i its = its ! i # drop (i + 1) its"
      by (simp add: Cons_nth_drop_Suc)
    from True have "fst (snd (getUntil_loop c its i ret idx)) =
        fst (snd (getUntil_loop c (its[i := 0]) (i + 1) (ret @ [its ! i]) (int i)))"
      by (subst getUntil_loop.simps) simp
    also have "\<dots> = (ret @ [its ! i]) @ takeWhile c (drop (i + 1) (its[i := 0]))"
      using True by (intro "1.IH") auto
    finally show ?thesis using True d by simp
  next
    case False
    then show ?thesis
      by (subst getUntil_loop.simps) (auto simp: Cons_nth_drop_Suc [symmetric])
  qed
qed

lemma getUntil_loop_index:
  "snd (snd (getUntil_loop c its i ret idx)) =
     (if takeWhile c (drop i its) = [] then idx
      else int (i + length (takeWhile c (drop i its))) - 1)"
proof (induction c its i ret idx rule: getUntil_loop.induct)
  case (1 c its i ret idx)
  show ?case
  proof (cases "i < length its \<and> c (its ! i)")
    case True
    from True have d: "drop i its = its ! i # drop (i + 1) its"
      by (simp add: Cons_nth_drop_Suc)
    from True have "snd (snd (getUntil_loop c its i ret idx)) =
        snd (snd (getUntil_loop c (its[i := 0]) (i + 1) (ret @ [its ! i]) (int i)))"
      by (subst getUntil_loop.simps) simp
    also have "\<dots> = (if takeWhile c (drop (i + 1) (its[i := 0])) = [] then int i
      else int ((i + 1) + length (takeWhile c (drop (i + 1) (its[i := 0])))) - 1)"
      using True by (intro "1.IH") auto
    finally show ?thesis using True d by simp
  next
    case False
    then show ?thesis
      by (subst getUntil_loop.simps) (auto simp: Cons_nth_drop_Suc [symmetric])
  qed
qed

lemma getUntil_loop_rest:
  "i + length (takeWhile c (drop i its)) \<le> j \<Longrightarrow>
   drop j (fst (getUntil_loop c its i ret idx)) = drop j its"
proof (induction c its i ret idx rule: getUntil_loop.induct)
  case (1 c its i ret idx)
  show ?case
  proof (cases "i < length its \<and> c (its ! i)")
    case True
    from True have d: "drop i its = its ! i # drop (i + 1) its"
      by (simp add: Cons_nth_drop_Suc)
    from True have e: "fst (getUntil_loop c its i ret idx) =
        fst (getUntil_loop c (its[i := 0]) (i + 1) (ret @ [its ! i]) (int i))"
      by (subst getUntil_loop.simps) simp
    have "drop j (fst (getUntil_loop c (its[i := 0]) (i + 1) (ret @ [its ! i]) (int i)))
          = drop j (its[i := 0])"
      using True "1.prems" d by (intro "1.IH") auto
    moreover have "i < j" using True "1.prems" d by auto
    ultimately show ?thesis using e by simp
  next
    case False
    then show ?thesis by (subst getUntil_loop.simps) auto
  qed
qed

lemma items_getUntil_eq: "items_getUntil its c = (takeWhile c its, dropWhile c its)"
proof (cases "its = []")
  case True
  then show ?thesis by (simp add: items_getUntil_def)
next
  case False
  obtain a b k where g: "getUntil_loop c its 0 [] (- 1) = (a, b, k)"
    by (cases "getUntil_loop c its 0 [] (- 1)") auto
  have b: "b = takeWhile c its" using getUntil_loop_ret [of c its 0 "[]" "- 1"] g by simp
  have k: "nat (k + 1) = length (takeWhile c its)"
    using getUntil_loop_index [of c its 0 "[]" "- 1"] g by (simp split: if_splits)
  have "drop (nat (k + 1)) a = drop (nat (k + 1)) its"
    using getUntil_loop_rest [of 0 c its "nat (k + 1)" "[]" "- 1"] g k by simp
  moreover have "drop (length (takeWhile c its)) its = dropWhile c its"
    by (simp add: dropWhile_eq_drop)
  ultimately show ?thesis using g b k False by (simp add: items_getUntil_def)
qed

subsection \<open>The operations on a queue nobody waits on\<close>






lemma TakeUntil_eq:
  "\<not> lock q \<Longrightarrow> \<not> disposed q \<Longrightarrow>
   TakeUntil q (Some c) = Returns (q\<lparr>items := dropWhile c (items q)\<rparr>) (takeWhile c (items q), None)"
  by (simp add: TakeUntil_def items_getUntil_eq)

lemma Dispose_eq:
  "\<not> lock q \<Longrightarrow>
   Dispose q = Returns (q\<lparr>disposed := True, semas := fold dispose_signal (waiters q) (semas q),
                          items := [], waiters := []\<rparr>) (items q)"
  by (simp add: Dispose_def)

lemma Dispose_again:
  "\<not> lock q \<Longrightarrow> disposed q \<Longrightarrow> items q = [] \<Longrightarrow> waiters q = [] \<Longrightarrow> Dispose q = Returns q []"
  by (simp add: Dispose_def)

lemma Dispose_later:
  "\<not> lock q \<Longrightarrow> disposed q \<Longrightarrow> items q = [] \<Longrightarrow> waiters q = [] \<Longrightarrow>
   ((\<lambda>s. state_of (Dispose s)) ^^ n) q = q"
  by (induction n) (simp_all add: Dispose_again)

subsection \<open>FIFO order\<close>




subsection \<open>Disposal\<close>

text \<open>
  C2, as amended. Once \<open>disposed\<close> is true, no call of \<open>Put\<close>, \<open>Poll\<close>, \<open>Get\<close>, \<open>Peek\<close>,
  \<open>TakeUntil\<close>, \<open>Dispose\<close> or \<open>ExecuteInParallel\<close> leaves it false, however the call ends.
  On a disposed queue whose lock is free, \<open>Put\<close> of at least one item, \<open>Poll\<close> and \<open>Get\<close>
  of a number of at least 1, \<open>Peek\<close>, and \<open>TakeUntil\<close> of a function that is not \<open>nil\<close>
  return \<open>ErrDisposed\<close> and leave the whole state, buffer and waiter registry included,
  as it was; \<open>Put\<close> of no items, \<open>Poll\<close> and \<open>Get\<close> of a number below 1 and \<open>TakeUntil(nil)\<close>
  return a \<open>nil\<close> error instead, and leave the state as it was too.
\<close>

theorem disposed_is_final:
  assumes "disposed q"
  shows "disposed (state_of (Put q its)) \<and> disposed (state_of (Poll q n t))
       \<and> disposed (state_of (Get q n)) \<and> disposed (state_of (Peek q))
       \<and> disposed (state_of (TakeUntil q c)) \<and> disposed (state_of (Dispose q))
       \<and> (\<exists>q'. state_of (ExecuteInParallel k (Some q)) = Some q' \<and> disposed q')
       \<and> (\<not> lock q \<longrightarrow>
            Put q its = Returns q (if its = [] then None else Some ErrDisposed)
          \<and> Poll q n t = Returns q ([], if n < 1 then None else Some ErrDisposed)
          \<and> Get q n = Returns q ([], if n < 1 then None else Some ErrDisposed)
          \<and> Peek q = Returns q (0, Some ErrDisposed)
          \<and> TakeUntil q c = Returns q ([], if c = None then None else Some ErrDisposed))"
proof -
  have a: "disposed (state_of (Put q its))" using assms by (simp add: Put_def)
  have b: "disposed (state_of (Poll q n t))" for n t using assms by (simp add: Poll_def)
  have c: "disposed (state_of (Peek q))" using assms by (simp add: Peek_def)
  have d: "disposed (state_of (TakeUntil q c))"
    using assms by (simp add: TakeUntil_def split: option.splits)
  have e: "disposed (state_of (Dispose q))" using assms by (simp add: Dispose_def)
  have f: "\<exists>q'. state_of (ExecuteInParallel k (Some q)) = Some q' \<and> disposed q'"
    using assms
    by (auto simp: ExecuteInParallel_def Dispose_def Let_def split: if_splits prod.splits)
  have g: "Put q its = Returns q (if its = [] then None else Some ErrDisposed)" if "\<not> lock q"
    using assms that by (simp add: Put_def)
  have h: "Poll q n t = Returns q ([], if n < 1 then None else Some ErrDisposed)"
    if "\<not> lock q" for n t
    using assms that by (simp add: Poll_def)
  have i: "Peek q = Returns q (0, Some ErrDisposed)" if "\<not> lock q"
    using assms that by (simp add: Peek_def)
  have j: "TakeUntil q c = Returns q ([], if c = None then None else Some ErrDisposed)"
    if "\<not> lock q"
    using assms that by (simp add: TakeUntil_def split: option.splits)
  show ?thesis using a b [of n t] b [of n 0] c d e f g h [of n t] h [of n 0] i j
    by (simp add: Get_def)
qed

theorem disposed_is_final_witness:
  "disposed \<lparr>waiters = [], items = ([] :: int list), lock = False, disposed = True, semas = []\<rparr>
   \<and> Put \<lparr>waiters = [], items = [], lock = False, disposed = True, semas = []\<rparr> [1 :: int]
       = Returns \<lparr>waiters = [], items = [], lock = False, disposed = True, semas = []\<rparr> (Some ErrDisposed)
   \<and> Poll \<lparr>waiters = [], items = ([] :: int list), lock = False, disposed = True, semas = []\<rparr> 1 50
       = Returns \<lparr>waiters = [], items = [], lock = False, disposed = True, semas = []\<rparr> ([], Some ErrDisposed)
   \<and> Get \<lparr>waiters = [], items = ([] :: int list), lock = False, disposed = True, semas = []\<rparr> 1
       = Returns \<lparr>waiters = [], items = [], lock = False, disposed = True, semas = []\<rparr> ([], Some ErrDisposed)
   \<and> Peek \<lparr>waiters = [], items = ([] :: int list), lock = False, disposed = True, semas = []\<rparr>
       = Returns \<lparr>waiters = [], items = [], lock = False, disposed = True, semas = []\<rparr> (0, Some ErrDisposed)
   \<and> TakeUntil \<lparr>waiters = [], items = ([] :: int list), lock = False, disposed = True, semas = []\<rparr>
         (Some (\<lambda>x. x < 3))
       = Returns \<lparr>waiters = [], items = [], lock = False, disposed = True, semas = []\<rparr> ([], Some ErrDisposed)
   \<and> disposed (state_of (Dispose
         \<lparr>waiters = [], items = ([] :: int list), lock = False, disposed = True, semas = []\<rparr>))"
  using disposed_is_final
    [of "\<lparr>waiters = [], items = ([] :: int list), lock = False, disposed = True, semas = []\<rparr>"
        "[1]" 1 50 "Some (\<lambda>x. x < 3)" 1]
  by simp

text \<open>
  C2 as stated fails for the calls that return before they look at \<open>disposed\<close>: on a
  disposed queue \<open>Put()\<close> of no items, \<open>Get(0)\<close> and \<open>TakeUntil(nil)\<close> return a \<open>nil\<close> error,
  not \<open>ErrDisposed\<close>.
\<close>

theorem disposed_queue_calls_without_error:
  "disposed \<lparr>waiters = [], items = ([] :: int list), lock = False, disposed = True, semas = []\<rparr>
   \<and> Put \<lparr>waiters = [], items = ([] :: int list), lock = False, disposed = True, semas = []\<rparr> []
       = Returns \<lparr>waiters = [], items = [], lock = False, disposed = True, semas = []\<rparr> None
   \<and> Get \<lparr>waiters = [], items = ([] :: int list), lock = False, disposed = True, semas = []\<rparr> 0
       = Returns \<lparr>waiters = [], items = [], lock = False, disposed = True, semas = []\<rparr> ([], None)
   \<and> TakeUntil \<lparr>waiters = [], items = ([] :: int list), lock = False, disposed = True, semas = []\<rparr> None
       = Returns \<lparr>waiters = [], items = [], lock = False, disposed = True, semas = []\<rparr> ([], None)"
  by (simp add: Put_def Get_def Poll_def TakeUntil_def)

text \<open>
  C3. On a queue whose lock is free, \<open>Dispose\<close> returns the buffered items in order and
  leaves the queue disposed, with an empty buffer and an empty waiter registry. Every
  later call of \<open>Dispose\<close>, however many came before it, changes nothing and returns an
  empty result; so does \<open>Dispose\<close> on the queue \<open>New\<close> gives.
\<close>

theorem Dispose_once:
  assumes "\<not> lock q"
  shows "\<exists>q'. Dispose q = Returns q' (items q)
            \<and> disposed q' \<and> items q' = [] \<and> waiters q' = []
            \<and> (\<forall>n. Dispose (((\<lambda>s. state_of (Dispose s)) ^^ n) q') = Returns q' [])
            \<and> (\<forall>hint q0. New hint = Some q0 \<longrightarrow> (\<exists>q1. Dispose (q0 :: 'a Queue) = Returns q1 []))"
proof -
  let ?q' = "q\<lparr>disposed := True, semas := fold dispose_signal (waiters q) (semas q),
               items := [], waiters := []\<rparr>"
  have 1: "Dispose q = Returns ?q' (items q)" using assms by (rule Dispose_eq)
  have 2: "Dispose (((\<lambda>s. state_of (Dispose s)) ^^ n) ?q') = Returns ?q' []" for n
    using assms by (simp add: Dispose_later Dispose_again)
  have 3: "\<exists>q1. Dispose (q0 :: 'a Queue) = Returns q1 []" if "New hint = Some q0" for hint q0
    using that by (auto simp: New_def Dispose_def split: if_splits)
  show ?thesis using 1 2 3 by auto
qed

text \<open>
  A queue with two buffered items and one registered waiter; the second call is on the
  state the first one left. Scenario E of the specification: \<open>New(0)\<close>, \<open>Dispose()\<close> gives
  \<open>[]\<close>, and \<open>Put(1)\<close> then gives \<open>ErrDisposed\<close>.
\<close>

theorem Dispose_once_witness:
  "\<not> lock \<lparr>waiters = [0], items = [4, 5 :: int], lock = False, disposed = False,
            semas = [\<lparr>ready = [], response = 0\<rparr>]\<rparr>
   \<and> Dispose \<lparr>waiters = [0], items = [4, 5 :: int], lock = False, disposed = False,
        semas = [\<lparr>ready = [], response = 0\<rparr>]\<rparr>
     = Returns \<lparr>waiters = [], items = [], lock = False, disposed = True,
        semas = [\<lparr>ready = [True], response = 1\<rparr>]\<rparr> [4, 5]
   \<and> Dispose \<lparr>waiters = [], items = ([] :: int list), lock = False, disposed = True,
        semas = [\<lparr>ready = [True], response = 1\<rparr>]\<rparr>
     = Returns \<lparr>waiters = [], items = [], lock = False, disposed = True,
        semas = [\<lparr>ready = [True], response = 1\<rparr>]\<rparr> []
   \<and> Dispose \<lparr>waiters = [], items = ([] :: int list), lock = False, disposed = False, semas = []\<rparr>
     = Returns \<lparr>waiters = [], items = [], lock = False, disposed = True, semas = []\<rparr> []
   \<and> Put \<lparr>waiters = [], items = [], lock = False, disposed = True, semas = []\<rparr> [1 :: int]
     = Returns \<lparr>waiters = [], items = [], lock = False, disposed = True, semas = []\<rparr> (Some ErrDisposed)"
  using Dispose_once
    [of "\<lparr>waiters = [0], items = [4, 5 :: int], lock = False, disposed = False,
          semas = [\<lparr>ready = [], response = 0\<rparr>]\<rparr>"]
  by (simp add: Dispose_def dispose_signal_def try_send_def response_Add1_def Put_def)

subsection \<open>TakeUntil and Peek\<close>

text \<open>
  C5. On a queue that is not disposed and whose lock is free, \<open>TakeUntil(checker)\<close>
  returns, with a \<open>nil\<close> error, a prefix \<open>result\<close> of the buffer all of whose items satisfy
  \<open>checker\<close>, and leaves the other items \<open>rest\<close> in order; the prefix is the longest one,
  since \<open>rest\<close> is empty or starts with an item that fails \<open>checker\<close>. On an empty buffer
  the call returns an empty result and changes nothing.
\<close>

theorem TakeUntil_prefix:
  assumes "\<not> lock q" and "\<not> disposed q"
  shows "\<exists>result rest.
           TakeUntil q (Some checker) = Returns (q\<lparr>items := rest\<rparr>) (result, None)
         \<and> items q = result @ rest
         \<and> (\<forall>x \<in> set result. checker x)
         \<and> (case rest of [] \<Rightarrow> True | y # ys \<Rightarrow> \<not> checker y)
         \<and> (items q = [] \<longrightarrow> result = [] \<and> q\<lparr>items := rest\<rparr> = q)"
proof (intro exI conjI)
  show "TakeUntil q (Some checker) =
        Returns (q\<lparr>items := dropWhile checker (items q)\<rparr>) (takeWhile checker (items q), None)"
    using assms by (rule TakeUntil_eq)
  show "items q = takeWhile checker (items q) @ dropWhile checker (items q)" by simp
  show "\<forall>x \<in> set (takeWhile checker (items q)). checker x" by (auto dest: set_takeWhileD)
  show "case dropWhile checker (items q) of [] \<Rightarrow> True | y # ys \<Rightarrow> \<not> checker y"
    by (auto split: list.splits simp: dropWhile_eq_Cons_conv)
  show "items q = [] \<longrightarrow>
        takeWhile checker (items q) = [] \<and> q\<lparr>items := dropWhile checker (items q)\<rparr> = q"
    by simp
qed

text \<open>
  Scenario D of the specification: after \<open>Put(1,2,3,4)\<close>, \<open>TakeUntil(x < 3)\<close> gives \<open>[1,2]\<close>
  and the buffer is \<open>[3,4]\<close>; and the call on an empty buffer.
\<close>

theorem TakeUntil_prefix_witness:
  "\<not> lock \<lparr>waiters = [], items = [1, 2, 3, 4 :: int], lock = False, disposed = False, semas = []\<rparr>
   \<and> \<not> disposed \<lparr>waiters = [], items = [1, 2, 3, 4 :: int], lock = False, disposed = False, semas = []\<rparr>
   \<and> TakeUntil \<lparr>waiters = [], items = [1, 2, 3, 4 :: int], lock = False, disposed = False, semas = []\<rparr>
        (Some (\<lambda>x. x < 3))
     = Returns \<lparr>waiters = [], items = [3, 4], lock = False, disposed = False, semas = []\<rparr> ([1, 2], None)
   \<and> TakeUntil \<lparr>waiters = [], items = ([] :: int list), lock = False, disposed = False, semas = []\<rparr>
        (Some (\<lambda>x. x < 3))
     = Returns \<lparr>waiters = [], items = [], lock = False, disposed = False, semas = []\<rparr> ([], None)"
  using TakeUntil_prefix
    [of "\<lparr>waiters = [], items = [1, 2, 3, 4 :: int], lock = False, disposed = False, semas = []\<rparr>"
        "\<lambda>x. x < 3"]
  by (simp add: TakeUntil_eq)

text \<open>
  C6. On a queue whose lock is free \<open>Peek\<close> returns at once and leaves the whole state
  (buffer, waiter registry, \<open>disposed\<close>) as it was. It returns \<open>ErrDisposed\<close> when the queue
  is disposed, \<open>ErrEmptyQueue\<close> when it is not disposed and the buffer is empty, and
  otherwise the front item with a \<open>nil\<close> error.
\<close>

theorem Peek_front:
  assumes "\<not> lock q"
  shows "Peek q = Returns q (if disposed q then (0, Some ErrDisposed)
                       else case items q of [] \<Rightarrow> (0, Some ErrEmptyQueue) | x # xs \<Rightarrow> (x, None))"
  using assms by (simp add: Peek_def items_peek_def split: list.splits)

theorem Peek_front_witness:
  "\<not> lock \<lparr>waiters = [], items = [3, 4 :: int], lock = False, disposed = False, semas = []\<rparr>
   \<and> Peek \<lparr>waiters = [], items = [3, 4 :: int], lock = False, disposed = False, semas = []\<rparr>
     = Returns \<lparr>waiters = [], items = [3, 4], lock = False, disposed = False, semas = []\<rparr> (3, None)"
  using Peek_front
    [of "\<lparr>waiters = [], items = [3, 4 :: int], lock = False, disposed = False, semas = []\<rparr>"]
  by simp

subsection \<open>The calls that return before they take the lock\<close>

text \<open>
  C7. For every queue state, disposed or not, locked or not, \<open>Poll(number, timeout)\<close> and
  \<open>Get(number)\<close> with \<open>number < 1\<close> return an empty slice and a \<open>nil\<close> error, and leave the
  queue as it was.
\<close>

theorem Poll_number_below_1:
  assumes "number < 1"
  shows "Poll q number timeout = Returns q ([], None) \<and> Get q number = Returns q ([], None)"
  using assms by (simp add: Poll_def Get_def)

theorem Poll_number_below_1_witness:
  "(0 :: int) < 1
   \<and> Poll \<lparr>waiters = [], items = ([] :: int list), lock = False, disposed = True, semas = []\<rparr> 0 5
     = Returns \<lparr>waiters = [], items = [], lock = False, disposed = True, semas = []\<rparr> ([], None)
   \<and> Get \<lparr>waiters = [], items = ([] :: int list), lock = False, disposed = True, semas = []\<rparr> 0
     = Returns \<lparr>waiters = [], items = [], lock = False, disposed = True, semas = []\<rparr> ([], None)"
  using Poll_number_below_1
    [of 0 "\<lparr>waiters = [], items = ([] :: int list), lock = False, disposed = True, semas = []\<rparr>" 5]
  by simp

text \<open>
  C10. For every queue state \<open>Put\<close> with no items returns a \<open>nil\<close> error and leaves the
  queue as it was; in particular on the state \<open>Dispose\<close> leaves, where it does not return
  \<open>ErrDisposed\<close>.
\<close>

theorem Put_no_items:
  "Put q [] = Returns q None
   \<and> Put (state_of (Dispose q)) [] = Returns (state_of (Dispose q)) None"
  by (simp add: Put_def)

theorem Put_no_items_witness:
  "Put \<lparr>waiters = [], items = ([] :: int list), lock = False, disposed = True, semas = []\<rparr> []
     = Returns \<lparr>waiters = [], items = [], lock = False, disposed = True, semas = []\<rparr> None"
  using Put_no_items
    [of "\<lparr>waiters = [], items = ([] :: int list), lock = False, disposed = True, semas = []\<rparr>"]
  by simp

subsection \<open>The parallel dispatch helper\<close>

text \<open>
  The worker pool calls \<open>fn\<close> once on each of the first \<open>todo\<close> items, whatever the number
  of workers.
\<close>

lemma parallel_workers_calls:
  "0 < live \<Longrightarrow> - 1 \<le> done \<Longrightarrow> todo \<le> length its \<Longrightarrow>
   snd (parallel_workers its todo done live calls) = calls @ drop (nat (done + 1)) (take todo its)"
proof (induction its todo "done" live calls rule: parallel_workers.induct)
  case (1 its todo dn live calls)
  show ?case
  proof (cases "dn + 1 \<ge> int todo")
    case True
    show ?thesis
    proof (cases "live - 1 = 0")
      case z: True
      then show ?thesis using True "1.prems"
        by (subst parallel_workers.simps, subst parallel_workers.simps) (simp add: Let_def)
    next
      case False
      have "snd (parallel_workers its todo dn live calls) =
            snd (parallel_workers its todo (dn + 1) (live - 1) calls)"
        using True "1.prems" by (subst parallel_workers.simps) (simp add: Let_def)
      also have "\<dots> = calls @ drop (nat (dn + 1 + 1)) (take todo its)"
        using True "1.prems" False by (intro "1.IH"(1)) auto
      finally show ?thesis using True by simp
    qed
  next
    case False
    then have lt: "nat (dn + 1) < todo" using "1.prems" by linarith
    have "snd (parallel_workers its todo dn live calls) =
          snd (parallel_workers (its[nat (dn + 1) := 0]) todo (dn + 1) live
                 (calls @ [its ! nat (dn + 1)]))"
      using False "1.prems" by (subst parallel_workers.simps) (simp add: Let_def)
    also have "\<dots> = (calls @ [its ! nat (dn + 1)])
                     @ drop (nat (dn + 1 + 1)) (take todo (its[nat (dn + 1) := 0]))"
      using False "1.prems" by (intro "1.IH"(2)) auto
    also have "drop (nat (dn + 1 + 1)) (take todo (its[nat (dn + 1) := 0]))
               = drop (nat (dn + 1 + 1)) (take todo its)"
      using "1.prems" by (simp add: nat_add_distrib drop_take)
    also have "(calls @ [its ! nat (dn + 1)]) @ drop (nat (dn + 1 + 1)) (take todo its)
               = calls @ drop (nat (dn + 1)) (take todo its)"
    proof -
      have "drop (nat (dn + 1)) (take todo its)
            = take todo its ! nat (dn + 1) # drop (Suc (nat (dn + 1))) (take todo its)"
        using lt "1.prems" by (intro Cons_nth_drop_Suc [symmetric]) simp
      moreover have "nat (dn + 1 + 1) = Suc (nat (dn + 1))" using "1.prems" by linarith
      ultimately show ?thesis using lt by simp
    qed
    finally show ?thesis .
  qed
qed

text \<open>
  On a queue that is not \<open>nil\<close>, whose lock is free and whose buffer is not empty,
  \<open>ExecuteInParallel\<close> calls \<open>fn\<close> once on each buffered item and returns with the queue
  disposed and unlocked. On the \<open>nil\<close> queue it does nothing.
\<close>

lemma ExecuteInParallel_nonempty:
  assumes "\<not> lock q" and "items q \<noteq> []"
  shows "\<exists>q'. ExecuteInParallel NumCPU (Some q) = Returns (Some q') (items q)
            \<and> disposed q' \<and> items q' = [] \<and> waiters q' = [] \<and> \<not> lock q'"
proof -
  let ?n = "if NumCPU > 1 then NumCPU - 1 else 1"
  obtain its calls where w:
    "parallel_workers (items q) (length (items q)) (- 1) ?n [] = (its, calls)"
    by (cases "parallel_workers (items q) (length (items q)) (- 1) ?n []") auto
  have "calls = items q"
    using parallel_workers_calls [of ?n "- 1" "length (items q)" "items q" "[]"] w by simp
  then show ?thesis using assms w
    by (simp add: ExecuteInParallel_def Dispose_def Let_def)
qed

lemma ExecuteInParallel_nil: "ExecuteInParallel NumCPU None = Returns None []"
  by (simp add: ExecuteInParallel_def)

lemma ExecuteInParallel_empty:
  "\<not> lock q \<Longrightarrow> items q = [] \<Longrightarrow>
   ExecuteInParallel NumCPU (Some q) = Returns (Some (q\<lparr>lock := True\<rparr>)) []"
  by (simp add: ExecuteInParallel_def)

text \<open>
  C8, where the code departs from it. On the queue \<open>New(0)\<close> gives, whose buffer is empty,
  \<open>ExecuteInParallel\<close> calls \<open>fn\<close> on nothing and returns, but it returns with the lock of
  the queue held: the queue is not as it was, and a later \<open>Put(1)\<close> or \<open>Peek()\<close> never gets
  the lock.
\<close>

theorem ExecuteInParallel_empty_holds_lock:
  "ExecuteInParallel NumCPU
     (Some \<lparr>waiters = [], items = ([] :: int list), lock = False, disposed = False, semas = []\<rparr>)
   = Returns (Some \<lparr>waiters = [], items = [], lock = True, disposed = False, semas = []\<rparr>) []
   \<and> Put \<lparr>waiters = [], items = [], lock = True, disposed = False, semas = []\<rparr> [1 :: int]
     = Blocks \<lparr>waiters = [], items = [], lock = True, disposed = False, semas = []\<rparr>
   \<and> Peek \<lparr>waiters = [], items = ([] :: int list), lock = True, disposed = False, semas = []\<rparr>
     = Blocks \<lparr>waiters = [], items = [], lock = True, disposed = False, semas = []\<rparr>"
  by (simp add: ExecuteInParallel_def Put_def Peek_def)

subsection \<open>The future is filled at most once\<close>

lemma Fill_filled:
  "\<not> mutex f \<Longrightarrow> filled f \<noteq> 0 \<Longrightarrow> Fill f v e = Returns f (err f)"
  by (simp add: Fill_def)

lemma GetResult_filled: "filled f \<noteq> 0 \<Longrightarrow> GetResult f = Returns f (val f, err f)"
  by (simp add: GetResult_def)

lemma Fill_first:
  assumes "unfilled f"
  shows "\<exists>f1. Fill f v e = Returns f1 e \<and> val f1 = v \<and> err f1 = e \<and> filled f1 = 1 \<and> \<not> mutex f1"
  using assms by (auto simp: unfilled_def Fill_def Let_def split: option.splits)

lemma NewSelectable_unfilled: "unfilled NewSelectable"
  by (simp add: unfilled_def NewSelectable_def)

text \<open>
  \<open>wchan\<close> and a \<open>GetResult\<close> that finds the future unfilled leave it unfilled; the latter
  stays suspended.
\<close>

lemma wchan_unfilled:
  "unfilled f \<Longrightarrow>
   \<exists>c. wchan f = Returns (state_of (wchan f)) (Some c) \<and> unfilled (state_of (wchan f))"
  by (auto simp: unfilled_def wchan_def Let_def nth_append split: option.splits)

lemma GetResult_unfilled:
  "unfilled f \<Longrightarrow>
   GetResult f = Blocks (state_of (GetResult f)) \<and> unfilled (state_of (GetResult f))"
  by (auto simp: unfilled_def GetResult_def wchan_def Let_def nth_append split: option.splits)

text \<open>
  C9. On an unfilled future the first \<open>Fill(v, e)\<close> returns with \<open>val\<close> and \<open>err\<close> set to
  \<open>v\<close> and \<open>e\<close>. Every later \<open>Fill\<close>, with any arguments, leaves the whole future as the
  first one left it (so any number of them does) and returns the stored error, and
  \<open>GetResult\<close> returns the pair \<open>(v, e)\<close> of the first \<open>Fill\<close>.
\<close>

theorem Fill_at_most_once:
  assumes "unfilled f"
  shows "\<exists>f1. Fill f v e = Returns f1 e \<and> val f1 = v \<and> err f1 = e
            \<and> (\<forall>v' e'. Fill f1 v' e' = Returns f1 e)
            \<and> GetResult f1 = Returns f1 (v, e)"
proof -
  obtain f1 where f1: "Fill f v e = Returns f1 e" "val f1 = v" "err f1 = e" "filled f1 = 1"
      "\<not> mutex f1"
    using Fill_first [OF assms] by blast
  have "Fill f1 v' e' = Returns f1 e" for v' e'
    using f1 Fill_filled [of f1 v' e'] by simp
  moreover have "GetResult f1 = Returns f1 (v, e)"
    using f1 GetResult_filled [of f1] by simp
  ultimately show ?thesis using f1 by blast
qed

text \<open>A new future filled with 7 and then with 9 and an error.\<close>

theorem Fill_at_most_once_witness:
  "unfilled (NewSelectable :: (int, string) Selectable)
   \<and> Fill (NewSelectable :: (int, string) Selectable) 7 None
     = Returns \<lparr>mutex = False, val = 7, err = None, wait = Some closed, filled = 1, chans = [True]\<rparr> None
   \<and> Fill \<lparr>mutex = False, val = 7 :: int, err = None, wait = Some closed, filled = 1, chans = [True]\<rparr>
       9 (Some ''late'')
     = Returns \<lparr>mutex = False, val = 7, err = None, wait = Some closed, filled = 1, chans = [True]\<rparr> None
   \<and> GetResult \<lparr>mutex = False, val = 7 :: int, err = (None :: string option), wait = Some closed,
       filled = 1, chans = [True]\<rparr>
     = Returns \<lparr>mutex = False, val = 7, err = None, wait = Some closed, filled = 1, chans = [True]\<rparr>
         (7, None)"
  using Fill_at_most_once [of "NewSelectable :: (int, string) Selectable" 7 None]
  by (simp add: unfilled_def NewSelectable_def Fill_def GetResult_def)

subsection \<open>The race between a timeout and a hand-off\<close>


































text \<open>
  The shared state in which the race starts is the state in which \<open>Poll\<close> without a
  timeout is suspended.
\<close>

lemma Poll_suspends_at_race_start:
  "\<not> lock q \<Longrightarrow> \<not> disposed q \<Longrightarrow> items q = [] \<Longrightarrow> 1 \<le> number \<Longrightarrow> timeout \<le> 0 \<Longrightarrow>
   Poll q number timeout = Blocks (shared (race_start q number timeout its))"
  by (simp add: Poll_def race_start_def Let_def)





end
